theory Spec2Isabelle
  imports Complex_Main "HOL-Library.Char_ord" "HOL-Library.List_Lexorder"
begin

section \<open>Numeric conventions\<close>

text \<open>
  The program computes on Python floats. They are idealised here as the real numbers:
  every arithmetic operation is exact, and the binary rounding error and the overflow of
  IEEE doubles are outside the model. What Python raises on these operations is kept:
  a division by zero and a zero base with a negative exponent raise
  \<open>ZeroDivisionError\<close>, indexing an empty list raises \<open>IndexError\<close>, and a request
  body that breaks a \<open>Field\<close> constraint of its pydantic schema is rejected with a
  validation error before the handler runs. A negative base with a fractional exponent
  gives a complex number in Python 3, which the final \<open>round\<close> cannot take; that
  case is the error \<open>ComplexResult\<close>.
\<close>

datatype py_error = ZeroDivisionError | IndexError | ValidationError | ComplexResult

text \<open>
  \<open>round(x, 2)\<close>: the nearest multiple of 0.01, a tie going to the even hundredth,
  as Python 3 rounds.
\<close>

definition round_half_even :: "real \<Rightarrow> int" where
  "round_half_even x =
     (let f = \<lfloor>x\<rfloor>; d = x - of_int f
      in if d < 1 / 2 then f
         else if 1 / 2 < d then f + 1
         else if even f then f else f + 1)"

definition round2 :: "real \<Rightarrow> real" where
  "round2 x = of_int (round_half_even (x * 100)) / 100"

text \<open>\<open>a / b\<close> on floats.\<close>

definition py_div :: "real \<Rightarrow> real \<Rightarrow> py_error + real" where
  "py_div a b = (if b = 0 then Inl ZeroDivisionError else Inr (a / b))"

text \<open>\<open>x ** n\<close> for a float \<open>x\<close> and an integer \<open>n\<close>, for a base that is not zero.\<close>

definition fpow :: "real \<Rightarrow> int \<Rightarrow> real" where
  "fpow x n = (if 0 \<le> n then x ^ nat n else 1 / x ^ nat (- n))"

text \<open>\<open>x ** n\<close> for a float \<open>x\<close> and an integer \<open>n\<close>, any base.\<close>

definition py_pow_int :: "real \<Rightarrow> int \<Rightarrow> py_error + real" where
  "py_pow_int x n = (if x = 0 \<and> n < 0 then Inl ZeroDivisionError else Inr (fpow x n))"

text \<open>\<open>x ** y\<close> for two floats.\<close>

definition py_pow :: "real \<Rightarrow> real \<Rightarrow> py_error + real" where
  "py_pow x y =
     (if 0 < x then Inr (x powr y)
      else if x = 0 then
        (if y < 0 then Inl ZeroDivisionError else if y = 0 then Inr 1 else Inr 0)
      else if y = of_int \<lfloor>y\<rfloor> then Inr (fpow x \<lfloor>y\<rfloor>)
      else Inl ComplexResult)"

section \<open>utils/calculations.py: FinancialCalculator\<close>

subsection \<open>calculate\_emi\<close>

definition calculate_emi :: "real \<Rightarrow> real \<Rightarrow> int \<Rightarrow> py_error + real" where
  "calculate_emi principal0 annual_rate tenure_months =
     (let monthly_rate = annual_rate / (12 * 100)
      in if monthly_rate > 0 then
           (case py_div (principal0 * monthly_rate * fpow (1 + monthly_rate) tenure_months)
                        (fpow (1 + monthly_rate) tenure_months - 1) of
              Inl e \<Rightarrow> Inl e
            | Inr emi \<Rightarrow> Inr (round2 emi))
         else
           (case py_div principal0 (of_int tenure_months) of
              Inl e \<Rightarrow> Inl e
            | Inr emi \<Rightarrow> Inr (round2 emi)))"

subsection \<open>calculate\_sip\_value\<close>

record sip_value =
  total_invested :: real
  current_value :: real

definition calculate_sip_value :: "real \<Rightarrow> real \<Rightarrow> int \<Rightarrow> sip_value" where
  "calculate_sip_value monthly_amount annual_return months =
     (let monthly_rate = annual_return / (12 * 100);
          fv = (if monthly_rate > 0
                then monthly_amount * ((fpow (1 + monthly_rate) months - 1) / monthly_rate)
                       * (1 + monthly_rate)
                else monthly_amount * of_int months);
          invested = monthly_amount * of_int months
      in \<lparr>total_invested = round2 invested, current_value = round2 fv\<rparr>)"

subsection \<open>calculate\_loan\_schedule\<close>

record schedule_row =
  row_month :: nat
  row_emi :: real
  row_interest :: real
  row_principal :: real
  row_balance :: real

text \<open>
  The body of \<open>for month in range(1, tenure_months + 1)\<close>: the running \<open>balance\<close> is
  carried unclamped into the next iteration, the row stores \<open>round(max(balance, 0), 2)\<close>.
  The second argument is the month about to be written, the third the number of
  iterations left.
\<close>

fun schedule_loop :: "real \<Rightarrow> real \<Rightarrow> nat \<Rightarrow> nat \<Rightarrow> real \<Rightarrow> schedule_row list" where
  "schedule_loop monthly_rate emi month 0 balance = []"
| "schedule_loop monthly_rate emi month (Suc k) balance =
     (let interest = balance * monthly_rate;
          principal_paid = emi - interest;
          balance' = balance - principal_paid
      in \<lparr>row_month = month, row_emi = emi, row_interest = round2 interest,
           row_principal = round2 principal_paid,
           row_balance = round2 (max balance' 0)\<rparr>
         # schedule_loop monthly_rate emi (Suc month) k balance')"

definition calculate_loan_schedule :: "real \<Rightarrow> real \<Rightarrow> int \<Rightarrow> real \<Rightarrow> schedule_row list" where
  "calculate_loan_schedule principal0 annual_rate tenure_months emi =
     schedule_loop (annual_rate / (12 * 100)) emi 1 (nat tenure_months) principal0"

text \<open>
  The value of the variable \<open>balance\<close> after \<open>k\<close> iterations of that loop, neither
  rounded nor clamped: each iteration subtracts \<open>emi - balance * monthly_rate\<close>.
\<close>

fun running_balance :: "real \<Rightarrow> real \<Rightarrow> real \<Rightarrow> nat \<Rightarrow> real" where
  "running_balance P m E 0 = P"
| "running_balance P m E (Suc k) =
     running_balance P m E k - (E - running_balance P m E k * m)"

subsection \<open>calculate\_xirr\<close>

text \<open>A date is its day number; \<open>(d - first_date).days\<close> is the difference.\<close>

type_synonym date = int

fun sum_results :: "(py_error + real) list \<Rightarrow> py_error + real" where
  "sum_results [] = Inr 0"
| "sum_results (Inl e # rs) = Inl e"
| "sum_results (Inr v # rs) = (case sum_results rs of Inl e \<Rightarrow> Inl e | Inr s \<Rightarrow> Inr (v + s))"

definition npv_term :: "real \<Rightarrow> real \<times> real \<Rightarrow> py_error + real" where
  "npv_term rate p =
     (case py_pow (1 + rate) (snd p) of Inl e \<Rightarrow> Inl e | Inr d \<Rightarrow> py_div (fst p) d)"

definition dnpv_term :: "real \<Rightarrow> real \<times> real \<Rightarrow> py_error + real" where
  "dnpv_term rate p =
     (case py_pow (1 + rate) (snd p + 1) of
        Inl e \<Rightarrow> Inl e
      | Inr d \<Rightarrow> py_div (- fst p * snd p) d)"

text \<open>\<open>for _ in range(100)\<close>, the first argument counting the iterations left.\<close>

fun xirr_loop :: "nat \<Rightarrow> (real \<times> real) list \<Rightarrow> real \<Rightarrow> py_error + real" where
  "xirr_loop 0 flows rate = Inr rate"
| "xirr_loop (Suc k) flows rate =
     (case sum_results (map (npv_term rate) flows) of
        Inl e \<Rightarrow> Inl e
      | Inr npv \<Rightarrow>
          (case sum_results (map (dnpv_term rate) flows) of
             Inl e \<Rightarrow> Inl e
           | Inr dnpv \<Rightarrow>
               if \<bar>dnpv\<bar> < 1 / 1000000 then Inr rate
               else xirr_loop k flows (rate - npv / dnpv)))"

definition calculate_xirr :: "real list \<Rightarrow> date list \<Rightarrow> py_error + real" where
  "calculate_xirr cashflows dates =
     (if length cashflows \<noteq> length dates then Inr 0
      else case dates of
        [] \<Rightarrow> Inl IndexError
      | first_date # _ \<Rightarrow>
          (let years = map (\<lambda>d. of_int (d - first_date) / (36525 / 100)) dates
           in case xirr_loop 100 (zip cashflows years) (1 / 10) of
                Inl e \<Rightarrow> Inl e
              | Inr rate \<Rightarrow> Inr (round2 (rate * 100))))"

section \<open>backend/schemas.py, backend/crud.py, backend/main.py: loan creation\<close>

text \<open>
  \<open>schemas.LoanCreate\<close>: the request body of \<open>POST /api/loan\<close>. Its \<open>Field(gt=0)\<close>
  constraints are checked when the body is parsed, before \<open>main.create_loan\<close> runs.
\<close>

record loan_create =
  lc_user_id :: int
  lc_loan_type :: string
  lc_principal_amount :: real
  lc_interest_rate :: real
  lc_tenure_months :: int
  lc_start_date :: date

definition loan_create_valid :: "loan_create \<Rightarrow> bool" where
  "loan_create_valid l \<longleftrightarrow>
     lc_principal_amount l > 0 \<and> lc_interest_rate l > 0 \<and> lc_tenure_months l > 0"

text \<open>\<open>models.Loan\<close>, without the columns the database fills in.\<close>

record loan =
  loan_user_id :: int
  loan_type :: string
  loan_principal_amount :: real
  loan_interest_rate :: real
  loan_tenure_months :: int
  loan_start_date :: date
  loan_emi :: real
  loan_outstanding_amount :: real
  loan_is_active :: bool

text \<open>
  \<open>crud.create_loan\<close>: one closed formula, with no branch for a zero rate. The table
  of loans is passed in and returned with the new row appended.
\<close>

definition crud_create_loan :: "loan list \<Rightarrow> loan_create \<Rightarrow> py_error + (loan list \<times> loan)" where
  "crud_create_loan db l =
     (let P = lc_principal_amount l;
          r = lc_interest_rate l / (12 * 100);
          n = lc_tenure_months l
      in case py_pow_int (1 + r) n of
           Inl e \<Rightarrow> Inl e
         | Inr g \<Rightarrow>
             (case py_div (P * r * g) (g - 1) of
                Inl e \<Rightarrow> Inl e
              | Inr emi \<Rightarrow>
                  (let db_loan = \<lparr>loan_user_id = lc_user_id l, loan_type = lc_loan_type l,
                                    loan_principal_amount = lc_principal_amount l,
                                    loan_interest_rate = lc_interest_rate l,
                                    loan_tenure_months = lc_tenure_months l,
                                    loan_start_date = lc_start_date l,
                                    loan_emi = round2 emi,
                                    loan_outstanding_amount = P,
                                    loan_is_active = True\<rparr>
                   in Inr (db @ [db_loan], db_loan))))"

text \<open>\<open>main.create_loan\<close>, the handler behind the schema.\<close>

definition api_create_loan :: "loan list \<Rightarrow> loan_create \<Rightarrow> py_error + (loan list \<times> loan)" where
  "api_create_loan db l =
     (if loan_create_valid l then crud_create_loan db l else Inl ValidationError)"

section \<open>backend/main.py: compute\_snapshot\_data\<close>

text \<open>
  What the queries of \<open>compute_snapshot_data\<close> return for the user and the month: for
  each row of a table the one column the function reads (\<open>None\<close> for a null), the
  \<open>total_income\<close> of the month's income row if there is one, and the amounts of the
  month's expense rows.
\<close>

record snapshot_rows =
  stocks :: "real option list"
  sips :: "real option list"
  mutual_funds :: "real option list"
  lump_sums :: "real option list"
  loans :: "real option list"
  credit_cards :: "real option list"
  income :: "real option"
  expenses :: "real list"

record snapshot =
  total_stocks_value :: real
  total_sip_value :: real
  total_mutual_fund_value :: real
  total_lump_sum_value :: real
  savings :: real
  total_assets :: real
  total_loan_outstanding :: real
  total_credit_card_outstanding :: real
  total_liabilities :: real
  net_worth :: real
  predicted_next_month :: "real option"

text \<open>\<open>(v or 0)\<close>.\<close>

definition or0 :: "real option \<Rightarrow> real" where
  "or0 v = (case v of None \<Rightarrow> 0 | Some x \<Rightarrow> x)"

definition compute_snapshot_data :: "snapshot_rows \<Rightarrow> snapshot" where
  "compute_snapshot_data db =
     (let stocks_total = sum_list (map or0 (stocks db));
          sip_total = sum_list (map or0 (sips db));
          mutual_fund_total = sum_list (map or0 (mutual_funds db));
          lump_sum_total = sum_list (map or0 (lump_sums db));
          monthly_income = (case income db of None \<Rightarrow> 0 | Some t \<Rightarrow> t);
          monthly_expense = (if expenses db \<noteq> [] then sum_list (expenses db) else 0);
          savings0 = monthly_income - monthly_expense;
          assets = stocks_total + sip_total + mutual_fund_total + lump_sum_total
                     + max savings0 0;
          loan_total = sum_list (map or0 (loans db));
          credit_card_total = sum_list (map or0 (credit_cards db));
          liabilities = loan_total + credit_card_total;
          worth = assets - liabilities
      in \<lparr>total_stocks_value = round2 stocks_total,
           total_sip_value = round2 sip_total,
           total_mutual_fund_value = round2 mutual_fund_total,
           total_lump_sum_value = round2 lump_sum_total,
           savings = round2 (max savings0 0),
           total_assets = round2 assets,
           total_loan_outstanding = round2 loan_total,
           total_credit_card_outstanding = round2 credit_card_total,
           total_liabilities = round2 liabilities,
           net_worth = round2 worth,
           predicted_next_month = None\<rparr>)"

text \<open>
  The totals of \<open>compute_snapshot_data\<close> before rounding: the local variables
  \<open>total_assets\<close> and \<open>total_liabilities\<close> of the function.
\<close>

definition exact_assets :: "snapshot_rows \<Rightarrow> real" where
  "exact_assets db =
     sum_list (map or0 (stocks db)) + sum_list (map or0 (sips db))
       + sum_list (map or0 (mutual_funds db)) + sum_list (map or0 (lump_sums db))
       + max ((case income db of None \<Rightarrow> 0 | Some t \<Rightarrow> t) - sum_list (expenses db)) 0"

definition exact_liabilities :: "snapshot_rows \<Rightarrow> real" where
  "exact_liabilities db =
     sum_list (map or0 (loans db)) + sum_list (map or0 (credit_cards db))"

section \<open>ml\_models/autoencoder\_anomaly.py: \_rule\_based\_detection\<close>

text \<open>
  The data frame is the list of its rows (columns \<open>month\<close>, \<open>category\<close>, \<open>amount\<close>).
  \<open>groupby(key)[amount].sum()\<close> gives one entry per distinct key, in ascending key
  order, holding the sum of the amounts of the rows with that key. \<open>Series.mean()\<close> is
  the arithmetic mean and \<open>Series.std()\<close> the sample standard deviation (pandas
  divides by \<open>n - 1\<close>).
\<close>

record ('m, 'c) expense_row =
  exp_month :: 'm
  exp_category :: 'c
  exp_amount :: real

record ('m, 'c) anomaly =
  an_month :: 'm
  an_total_expense :: real
  an_threshold :: real
  an_deviation :: real
  an_categories :: "('c \<times> real) list"

definition groupby_sum :: "('k::linorder \<times> real) list \<Rightarrow> ('k \<times> real) list" where
  "groupby_sum rows =
     map (\<lambda>k. (k, sum_list (map snd (filter (\<lambda>r. fst r = k) rows))))
         (sort (remdups (map fst rows)))"

definition series_mean :: "real list \<Rightarrow> real" where
  "series_mean xs = sum_list xs / of_nat (length xs)"

definition series_std :: "real list \<Rightarrow> real" where
  "series_std xs =
     sqrt (sum_list (map (\<lambda>x. (x - series_mean xs)\<^sup>2) xs) / (of_nat (length xs) - 1))"

definition rule_based_detection ::
  "('m::linorder, 'c::linorder) expense_row list \<Rightarrow> ('m, 'c) anomaly list" where
  "rule_based_detection expenses_df =
     (let monthly_totals = groupby_sum (map (\<lambda>r. (exp_month r, exp_amount r)) expenses_df)
      in if length monthly_totals < 3 then []
         else
           (let mean_expense = series_mean (map snd monthly_totals);
                std_expense = series_std (map snd monthly_totals);
                threshold = mean_expense + 2 * std_expense
            in map (\<lambda>(month, total).
                      \<lparr>an_month = month, an_total_expense = total,
                       an_threshold = threshold,
                       an_deviation = (total - mean_expense) / std_expense,
                       an_categories =
                         groupby_sum (map (\<lambda>r. (exp_category r, exp_amount r))
                           (filter (\<lambda>r. exp_month r = month) expenses_df))\<rparr>)
                   (filter (\<lambda>(month, total). total > threshold) monthly_totals)))"

text \<open>
  Data frames with one expense row per month, months numbered from 1: the synthetic
  series of the specification, and a series of six months with a spike in the last.
\<close>

definition monthly_rows :: "real list \<Rightarrow> (nat, string) expense_row list" where
  "monthly_rows totals =
     map (\<lambda>(i, a). \<lparr>exp_month = Suc i, exp_category = ''Others'', exp_amount = a\<rparr>)
         (enumerate 0 totals)"

definition synthetic_series :: "(nat, string) expense_row list" where
  "synthetic_series = monthly_rows [10000, 10000, 10000, 10000, 50000]"

definition spike_series :: "(nat, string) expense_row list" where
  "spike_series = monthly_rows [100, 100, 100, 100, 100, 1000]"

section \<open>Properties\<close>

subsection \<open>Rounding and powers\<close>

lemma round_half_even_error: "\<bar>of_int (round_half_even x) - x\<bar> \<le> 1 / 2"
  unfolding round_half_even_def Let_def by (auto simp: abs_if) linarith+

lemma round2_error: "\<bar>round2 x - x\<bar> \<le> 1 / 200"
proof -
  have "\<bar>of_int (round_half_even (x * 100)) - x * 100\<bar> \<le> 1 / 2"
    by (rule round_half_even_error)
  then show ?thesis
    unfolding round2_def by (simp add: abs_if field_simps split: if_splits)
qed

lemma round_half_even_of_int: "round_half_even (of_int k) = k"
  unfolding round_half_even_def Let_def by simp

lemma round2_hundredths: "round2 (of_int k / 100) = of_int k / 100"
  unfolding round2_def by (simp add: round_half_even_of_int)

lemma round_half_even_nonneg: "0 \<le> x \<Longrightarrow> 0 \<le> round_half_even x"
  unfolding round_half_even_def Let_def by auto

lemma round2_nonneg: "0 \<le> x \<Longrightarrow> 0 \<le> round2 x"
  unfolding round2_def by (simp add: round_half_even_nonneg)

lemma fpow_pos: "0 < n \<Longrightarrow> fpow x n = x ^ nat n"
  by (simp add: fpow_def)

lemma fpow_gt_one: "1 < x \<Longrightarrow> 0 < n \<Longrightarrow> 1 < fpow x n"
  by (simp add: fpow_def one_less_power)

lemma fpow_lt_one: "1 < x \<Longrightarrow> n < 0 \<Longrightarrow> fpow x n < 1"
  by (simp add: fpow_def one_less_power)

subsection \<open>The EMI formula, in the calculator and at loan creation\<close>

text \<open>
  C1, as stated: for \<open>P > 0\<close>, \<open>r \<ge> 0\<close>, \<open>n > 0\<close> the EMI is the rounded closed
  formula, in particular \<open>EMI(P, 0, n) = P / n\<close>, at every place that computes it,
  loan creation included. Two parts fail. \<open>calculate_emi(100, 0, 3)\<close> is 33.33, the
  rounding of \<open>100 / 3\<close> and not \<open>100 / 3\<close>. And loan creation has no zero-rate EMI:
  the schema of the request requires \<open>interest_rate > 0\<close>, so a loan at rate 0 is
  rejected, and \<open>crud.create_loan\<close>, which has the closed formula only, would divide
  by zero on it.
\<close>

theorem emi_zero_rate_counterexample:
  "calculate_emi 100 0 3 = Inr (3333 / 100) \<and> calculate_emi 100 0 3 \<noteq> Inr (100 / 3) \<and>
   api_create_loan []
     \<lparr>lc_user_id = 1, lc_loan_type = ''Home'', lc_principal_amount = 1200,
      lc_interest_rate = 0, lc_tenure_months = 12, lc_start_date = 0\<rparr> = Inl ValidationError \<and>
   crud_create_loan []
     \<lparr>lc_user_id = 1, lc_loan_type = ''Home'', lc_principal_amount = 1200,
      lc_interest_rate = 0, lc_tenure_months = 12, lc_start_date = 0\<rparr> = Inl ZeroDivisionError"
  by (simp add: calculate_emi_def py_div_def round2_def round_half_even_def Let_def
      api_create_loan_def loan_create_valid_def crud_create_loan_def py_pow_int_def fpow_def)

text \<open>
  C1, as the code has it: for \<open>P > 0\<close>, \<open>r \<ge> 0\<close>, \<open>n > 0\<close> and \<open>m = r / 1200\<close>,
  \<open>calculate_emi\<close> returns \<open>round(P / n, 2)\<close> when \<open>m = 0\<close> and the rounded closed
  formula otherwise. Loan creation with the same terms stores the same EMI as
  \<open>calculate_emi\<close> (and the principal as outstanding amount) when \<open>r > 0\<close>; when
  \<open>r = 0\<close> the request is rejected by validation, and \<open>crud.create_loan\<close> on its own
  raises \<open>ZeroDivisionError\<close>.
\<close>

theorem emi_at_every_place:
  assumes "P = lc_principal_amount l" and "r = lc_interest_rate l"
    and "n = lc_tenure_months l"
    and "0 < P" and "0 \<le> r" and "0 < n"
  defines "m \<equiv> r / 1200"
  shows "calculate_emi P r n =
           Inr (round2 (if m = 0 then P / of_int n
                        else P * m * (1 + m) ^ nat n / ((1 + m) ^ nat n - 1))) \<and>
         (if m = 0
          then api_create_loan db l = Inl ValidationError \<and>
               crud_create_loan db l = Inl ZeroDivisionError
          else (\<exists>row. api_create_loan db l = Inr (db @ [row], row) \<and>
                  Inr (loan_emi row) = calculate_emi P r n \<and>
                  loan_outstanding_amount row = P))"
proof (cases "r = 0")
  case True
  then have m0: "m = 0" by (simp add: m_def)
  have "calculate_emi P r n = Inr (round2 (P / of_int n))"
    using True assms by (simp add: calculate_emi_def py_div_def Let_def)
  moreover have "api_create_loan db l = Inl ValidationError"
    using True assms by (simp add: api_create_loan_def loan_create_valid_def)
  moreover have "crud_create_loan db l = Inl ZeroDivisionError"
    using True assms
    by (simp add: crud_create_loan_def py_pow_int_def py_div_def fpow_def Let_def)
  ultimately show ?thesis using m0 by simp
next
  case False
  then have rpos: "0 < r" using assms by simp
  then have mpos: "0 < m" by (simp add: m_def)
  have g: "fpow (1 + m) n = (1 + m) ^ nat n" using assms by (simp add: fpow_pos)
  have "1 < fpow (1 + m) n" using mpos assms by (intro fpow_gt_one) simp_all
  then have gne: "(1 + m) ^ nat n - 1 \<noteq> 0" using g by simp
  have emi: "calculate_emi P r n =
      Inr (round2 (P * m * (1 + m) ^ nat n / ((1 + m) ^ nat n - 1)))"
    using rpos gne g unfolding m_def by (simp add: calculate_emi_def py_div_def Let_def)
  have valid: "loan_create_valid l" using assms rpos by (simp add: loan_create_valid_def)
  have base: "1 + m \<noteq> 0" using mpos by simp
  have "\<exists>row. api_create_loan db l = Inr (db @ [row], row) \<and>
          Inr (loan_emi row) = calculate_emi P r n \<and> loan_outstanding_amount row = P"
    using valid gne g base assms(1-3) emi unfolding m_def
    by (simp add: api_create_loan_def crud_create_loan_def py_pow_int_def py_div_def Let_def)
  then show ?thesis using emi mpos by simp
qed

theorem emi_at_every_place_witness:
  "calculate_emi 1200 12 2 = Inr (60901 / 100) \<and>
   (\<exists>row. api_create_loan []
       \<lparr>lc_user_id = 1, lc_loan_type = ''Home'', lc_principal_amount = 1200,
        lc_interest_rate = 12, lc_tenure_months = 2, lc_start_date = 0\<rparr> = Inr ([row], row) \<and>
      loan_emi row = 60901 / 100 \<and> loan_outstanding_amount row = 1200)"
proof -
  let ?l = "\<lparr>lc_user_id = 1, lc_loan_type = ''Home'', lc_principal_amount = 1200,
        lc_interest_rate = 12, lc_tenure_months = 2, lc_start_date = 0\<rparr>"
  let ?x = "round2 (12 * (101 / 100)\<^sup>2 / ((101 / 100)\<^sup>2 - 1))"
  have v: "?x = 60901 / 100"
    by (simp add: round2_def round_half_even_def Let_def power2_eq_square)
  from emi_at_every_place [of 1200 ?l 12 2 "[]"]
  have "calculate_emi 1200 12 2 = Inr ?x \<and>
     (\<exists>row. api_create_loan [] ?l = Inr ([row], row) \<and>
           Inr (loan_emi row) = calculate_emi 1200 12 2 \<and> loan_outstanding_amount row = 1200)"
    by auto
  then obtain row where e: "calculate_emi 1200 12 2 = Inr ?x"
    and r: "api_create_loan [] ?l = Inr ([row], row)"
      "Inr (loan_emi row) = calculate_emi 1200 12 2" "loan_outstanding_amount row = 1200"
    by blast
  from r(2) e have "loan_emi row = ?x" by simp
  then have "loan_emi row = 60901 / 100" using v by (simp only:)
  moreover have "calculate_emi 1200 12 2 = Inr (60901 / 100)" using e v by (simp only:)
  ultimately show ?thesis using r(1,3) by blast
qed

subsection \<open>Future value of a SIP\<close>

text \<open>
  C5, as stated: \<open>calculate_sip_value\<close> returns the two rounded values, and at rate 0
  the current value is \<open>A * n\<close> exactly. The returned value is rounded in the
  zero-rate branch too: a monthly amount of 100.004 over one month gives 100.0.
\<close>

theorem sip_zero_rate_counterexample:
  "current_value (calculate_sip_value (100004 / 1000) 0 1) = 100 \<and>
   current_value (calculate_sip_value (100004 / 1000) 0 1) \<noteq> 100004 / 1000 * 1"
  by (simp add: calculate_sip_value_def round2_def round_half_even_def Let_def)

text \<open>
  C5, as the code has it: for \<open>A > 0\<close>, \<open>r \<ge> 0\<close>, \<open>n > 0\<close> and \<open>m = r / 1200\<close>,
  \<open>total_invested\<close> is \<open>round(A * n, 2)\<close> and \<open>current_value\<close> is the rounded
  annuity-due value when \<open>m \<noteq> 0\<close>; at rate 0 \<open>current_value\<close> is \<open>round(A * n, 2)\<close>,
  which is \<open>A * n\<close> itself whenever \<open>A * n\<close> is a whole number of hundredths.
\<close>

theorem sip_future_value:
  assumes "0 < A" and "0 \<le> r" and "0 < n"
  defines "m \<equiv> r / 1200"
  shows "calculate_sip_value A r n =
           \<lparr>total_invested = round2 (A * of_int n),
            current_value = round2 (if m = 0 then A * of_int n
                                    else A * (((1 + m) ^ nat n - 1) / m) * (1 + m))\<rparr> \<and>
         (r = 0 \<longrightarrow> current_value (calculate_sip_value A r n) = round2 (A * of_int n) \<and>
            (\<forall>k::int. A * of_int n = of_int k / 100 \<longrightarrow>
               current_value (calculate_sip_value A r n) = A * of_int n))"
proof -
  have main: "calculate_sip_value A r n =
           \<lparr>total_invested = round2 (A * of_int n),
            current_value = round2 (if m = 0 then A * of_int n
                                    else A * (((1 + m) ^ nat n - 1) / m) * (1 + m))\<rparr>"
    using assms(1-3) unfolding m_def by (simp add: calculate_sip_value_def Let_def fpow_pos)
  have "current_value (calculate_sip_value A r n) = A * of_int n"
    if "r = 0" and "A * of_int n = of_int k / 100" for k :: int
  proof -
    have "round2 (A * of_int n) = A * of_int n"
      by (simp only: that(2) round2_hundredths)
    then show ?thesis using that(1) main by (simp add: m_def)
  qed
  then show ?thesis using main by (auto simp: m_def)
qed

theorem sip_future_value_witness:
  "calculate_sip_value 5000 0 36 = \<lparr>total_invested = 180000, current_value = 180000\<rparr>"
proof -
  have "(5000::real) * of_int 36 = of_int 18000000 / 100" by simp
  with sip_future_value [of 5000 0 36] show ?thesis
    by (simp add: round2_def round_half_even_def Let_def)
qed

subsection \<open>The net-worth snapshot\<close>

lemma snapshot_fields:
  "compute_snapshot_data db =
     \<lparr>total_stocks_value = round2 (sum_list (map or0 (stocks db))),
      total_sip_value = round2 (sum_list (map or0 (sips db))),
      total_mutual_fund_value = round2 (sum_list (map or0 (mutual_funds db))),
      total_lump_sum_value = round2 (sum_list (map or0 (lump_sums db))),
      savings = round2 (max ((case income db of None \<Rightarrow> 0 | Some t \<Rightarrow> t)
                               - sum_list (expenses db)) 0),
      total_assets = round2 (exact_assets db),
      total_loan_outstanding = round2 (sum_list (map or0 (loans db))),
      total_credit_card_outstanding = round2 (sum_list (map or0 (credit_cards db))),
      total_liabilities = round2 (exact_liabilities db),
      net_worth = round2 (exact_assets db - exact_liabilities db),
      predicted_next_month = None\<rparr>"
proof -
  have e: "(if expenses db \<noteq> [] then sum_list (expenses db) else 0) = sum_list (expenses db)"
    by simp
  show ?thesis
    unfolding compute_snapshot_data_def Let_def e exact_assets_def exact_liabilities_def
    by simp
qed

lemma round2_sum5:
  "\<bar>round2 (a + b + c + d + e) - (round2 a + round2 b + round2 c + round2 d + round2 e)\<bar>
     \<le> 3 / 100"
  using round2_error [of "a + b + c + d + e"] round2_error [of a] round2_error [of b]
    round2_error [of c] round2_error [of d] round2_error [of e]
  by linarith

lemma round2_sum2: "\<bar>round2 (a + b) - (round2 a + round2 b)\<bar> \<le> 3 / 200"
  using round2_error [of "a + b"] round2_error [of a] round2_error [of b] by linarith

lemma round2_diff2: "\<bar>round2 (a - b) - (round2 a - round2 b)\<bar> \<le> 3 / 200"
  using round2_error [of "a - b"] round2_error [of a] round2_error [of b] by linarith

text \<open>
  C3, as stated: the \<open>savings\<close> field equals \<open>max(income_total - expense_total, 0)\<close>.
  The field is that value rounded to two decimals: an income of 1000.004 with no expense
  gives 1000.0.
\<close>

theorem snapshot_savings_counterexample:
  "savings (compute_snapshot_data
     \<lparr>stocks = [], sips = [], mutual_funds = [], lump_sums = [], loans = [],
      credit_cards = [], income = Some (1000004 / 1000), expenses = []\<rparr>) = 1000 \<and>
   max (1000004 / 1000 - 0) 0 \<noteq> (1000 :: real)"
  by (simp add: compute_snapshot_data_def round2_def round_half_even_def Let_def)

text \<open>
  C3, as the code has it: for every combination of income and expense records (no
  record counting as 0) the \<open>savings\<close> field is
  \<open>round(max(income_total - expense_total, 0), 2)\<close>; it is never negative, and it is
  0 whenever the expenses reach or exceed the income.
\<close>

theorem snapshot_savings_floor:
  "savings (compute_snapshot_data db) =
     round2 (max ((case income db of None \<Rightarrow> 0 | Some t \<Rightarrow> t) - sum_list (expenses db)) 0) \<and>
   0 \<le> savings (compute_snapshot_data db) \<and>
   ((case income db of None \<Rightarrow> 0 | Some t \<Rightarrow> t) \<le> sum_list (expenses db) \<longrightarrow>
      savings (compute_snapshot_data db) = 0)"
proof -
  have e: "(if expenses db \<noteq> [] then sum_list (expenses db) else 0) = sum_list (expenses db)"
    by simp
  have s: "savings (compute_snapshot_data db) =
     round2 (max ((case income db of None \<Rightarrow> 0 | Some t \<Rightarrow> t) - sum_list (expenses db)) 0)"
    unfolding compute_snapshot_data_def Let_def e by simp
  have z: "round2 0 = 0" by (simp add: round2_def round_half_even_def)
  show ?thesis unfolding s using z by (auto intro: round2_nonneg simp: max_def)
qed

theorem snapshot_savings_floor_witness:
  "savings (compute_snapshot_data
     \<lparr>stocks = [], sips = [], mutual_funds = [], lump_sums = [], loans = [],
      credit_cards = [], income = Some 50000, expenses = [30000, 45000]\<rparr>) = 0"
  using snapshot_savings_floor [of
     "\<lparr>stocks = [], sips = [], mutual_funds = [], lump_sums = [], loans = [],
      credit_cards = [], income = Some 50000, expenses = [30000, 45000]\<rparr>"]
  by simp

text \<open>
  C2, as stated: the persisted, rounded fields satisfy the three equations exactly.
  Each field is rounded on its own from the unrounded totals, and rounding does not
  commute with addition: stocks worth 10.004 and SIPs worth 20.004 give
  \<open>total_assets = 30.01\<close> while the five rounded components add up to 30.00.
\<close>

theorem snapshot_equations_counterexample:
  "total_assets (compute_snapshot_data
     \<lparr>stocks = [Some (10004 / 1000)], sips = [Some (20004 / 1000)], mutual_funds = [],
      lump_sums = [], loans = [], credit_cards = [], income = None, expenses = []\<rparr>) = 3001 / 100 \<and>
   total_stocks_value (compute_snapshot_data
     \<lparr>stocks = [Some (10004 / 1000)], sips = [Some (20004 / 1000)], mutual_funds = [],
      lump_sums = [], loans = [], credit_cards = [], income = None, expenses = []\<rparr>) = 10 \<and>
   total_sip_value (compute_snapshot_data
     \<lparr>stocks = [Some (10004 / 1000)], sips = [Some (20004 / 1000)], mutual_funds = [],
      lump_sums = [], loans = [], credit_cards = [], income = None, expenses = []\<rparr>) = 20 \<and>
   total_mutual_fund_value (compute_snapshot_data
     \<lparr>stocks = [Some (10004 / 1000)], sips = [Some (20004 / 1000)], mutual_funds = [],
      lump_sums = [], loans = [], credit_cards = [], income = None, expenses = []\<rparr>) = 0 \<and>
   total_lump_sum_value (compute_snapshot_data
     \<lparr>stocks = [Some (10004 / 1000)], sips = [Some (20004 / 1000)], mutual_funds = [],
      lump_sums = [], loans = [], credit_cards = [], income = None, expenses = []\<rparr>) = 0 \<and>
   savings (compute_snapshot_data
     \<lparr>stocks = [Some (10004 / 1000)], sips = [Some (20004 / 1000)], mutual_funds = [],
      lump_sums = [], loans = [], credit_cards = [], income = None, expenses = []\<rparr>) = 0"
  by (simp add: compute_snapshot_data_def or0_def round2_def round_half_even_def Let_def)

text \<open>
  C2, as the code has it: \<open>total_assets\<close>, \<open>total_liabilities\<close> and \<open>net_worth\<close> are
  the roundings of the unrounded assets, liabilities and their difference, for which the
  three equations hold exactly; between the persisted fields the equations hold within
  0.03 (assets) and 0.015 (liabilities, net worth).
\<close>

theorem snapshot_equations_rounded:
  "total_assets (compute_snapshot_data db) = round2 (exact_assets db) \<and>
   total_liabilities (compute_snapshot_data db) = round2 (exact_liabilities db) \<and>
   net_worth (compute_snapshot_data db) = round2 (exact_assets db - exact_liabilities db) \<and>
   \<bar>total_assets (compute_snapshot_data db) -
      (total_stocks_value (compute_snapshot_data db) + total_sip_value (compute_snapshot_data db)
        + total_mutual_fund_value (compute_snapshot_data db)
        + total_lump_sum_value (compute_snapshot_data db)
        + savings (compute_snapshot_data db))\<bar> \<le> 3 / 100 \<and>
   \<bar>total_liabilities (compute_snapshot_data db) -
      (total_loan_outstanding (compute_snapshot_data db)
        + total_credit_card_outstanding (compute_snapshot_data db))\<bar> \<le> 3 / 200 \<and>
   \<bar>net_worth (compute_snapshot_data db) -
      (total_assets (compute_snapshot_data db) - total_liabilities (compute_snapshot_data db))\<bar>
     \<le> 3 / 200"
proof -
  have a: "\<bar>total_assets (compute_snapshot_data db) -
      (total_stocks_value (compute_snapshot_data db) + total_sip_value (compute_snapshot_data db)
        + total_mutual_fund_value (compute_snapshot_data db)
        + total_lump_sum_value (compute_snapshot_data db)
        + savings (compute_snapshot_data db))\<bar> \<le> 3 / 100"
    unfolding snapshot_fields exact_assets_def by (simp only: snapshot.simps round2_sum5)
  have l: "\<bar>total_liabilities (compute_snapshot_data db) -
      (total_loan_outstanding (compute_snapshot_data db)
        + total_credit_card_outstanding (compute_snapshot_data db))\<bar> \<le> 3 / 200"
    unfolding snapshot_fields exact_liabilities_def by (simp only: snapshot.simps round2_sum2)
  have n: "\<bar>net_worth (compute_snapshot_data db) -
      (total_assets (compute_snapshot_data db) - total_liabilities (compute_snapshot_data db))\<bar>
     \<le> 3 / 200"
    unfolding snapshot_fields by (simp only: snapshot.simps round2_diff2)
  show ?thesis using a l n by (simp add: snapshot_fields)
qed

subsection \<open>Tenure validation in the EMI\<close>

text \<open>
  C6, as stated: \<open>calculate_emi\<close> with a tenure \<open>n \<le> 0\<close> fails with
  \<open>InvalidInputError\<close>. The function has no tenure check and the program no such
  error: with principal 1000, rate 12 and tenure \<open>-1\<close> it returns the number
  \<open>-1000\<close>.
\<close>

theorem emi_negative_tenure_counterexample: "calculate_emi 1000 12 (- 1) = Inr (- 1000)"
  by (simp add: calculate_emi_def py_div_def fpow_def round2_def round_half_even_def Let_def)

text \<open>
  C6, as the code has it: for every principal and rate, a tenure of 0 ends in
  \<open>ZeroDivisionError\<close> (in either branch), and a negative tenure returns a number,
  the rounded closed formula with the negative exponent when the rate is positive and
  \<open>round(P / n, 2)\<close> otherwise.
\<close>

theorem emi_tenure_unchecked:
  "calculate_emi P r 0 = Inl ZeroDivisionError \<and>
   (n < 0 \<longrightarrow>
      calculate_emi P r n =
        Inr (round2 (if r > 0
                     then P * (r / 1200) * fpow (1 + r / 1200) n / (fpow (1 + r / 1200) n - 1)
                     else P / of_int n)))"
proof -
  have zero: "calculate_emi P r 0 = Inl ZeroDivisionError"
    by (simp add: calculate_emi_def py_div_def fpow_def Let_def)
  have neg: "calculate_emi P r n =
        Inr (round2 (if r > 0
                     then P * (r / 1200) * fpow (1 + r / 1200) n / (fpow (1 + r / 1200) n - 1)
                     else P / of_int n))" if n: "n < 0"
  proof (cases "r > 0")
    case True
    then have "fpow (1 + r / 1200) n < 1" using n by (intro fpow_lt_one) simp_all
    then show ?thesis using True by (simp add: calculate_emi_def py_div_def Let_def)
  next
    case False
    then show ?thesis using n by (simp add: calculate_emi_def py_div_def Let_def)
  qed
  show ?thesis using zero neg by blast
qed

theorem emi_tenure_unchecked_witness:
  "calculate_emi 1000 12 0 = Inl ZeroDivisionError \<and> calculate_emi 500 0 (- 2) = Inr (- 250)"
proof -
  have "calculate_emi 500 0 (- 2) = Inr (round2 (500 / of_int (- 2)))"
    using emi_tenure_unchecked [of 500 0 "- 2"] by simp
  moreover have "calculate_emi 1000 12 0 = Inl ZeroDivisionError"
    using emi_tenure_unchecked [of 1000 12 "- 2"] by blast
  ultimately show ?thesis by (simp add: round2_def round_half_even_def Let_def)
qed

subsection \<open>Length check of the XIRR\<close>

text \<open>
  C7, as stated: with cashflow and date lists of different lengths \<open>calculate_xirr\<close>
  fails with \<open>InvalidInputError\<close> rather than returning a number. The guard of the
  function returns \<open>0.0\<close>: two cashflows and one date give the number 0.
\<close>

theorem xirr_length_mismatch_counterexample: "calculate_xirr [- 1000, 1100] [0] = Inr 0"
  by (simp add: calculate_xirr_def)

text \<open>
  C7, as the code has it: whenever the two lengths differ, \<open>calculate_xirr\<close> returns
  \<open>0.0\<close> and raises nothing.
\<close>

theorem xirr_length_mismatch_returns_zero:
  "length cashflows \<noteq> length dates \<Longrightarrow> calculate_xirr cashflows dates = Inr 0"
  by (simp add: calculate_xirr_def)

theorem xirr_length_mismatch_returns_zero_witness:
  "length [- 1000 :: real] \<noteq> length [0 :: int, 365] \<and> calculate_xirr [- 1000] [0, 365] = Inr 0"
  using xirr_length_mismatch_returns_zero [of "[- 1000]" "[0, 365]"] by simp

subsection \<open>Rule-based anomaly detection\<close>

lemma groupby_sum_keys: "map fst (groupby_sum rows) = sort (remdups (map fst rows))"
  by (simp add: groupby_sum_def comp_def)

lemma groupby_sum_distinct: "distinct (map fst (groupby_sum rows))"
  by (simp add: groupby_sum_keys)

lemma square_le_sum_squares:
  "x \<in> set xs \<Longrightarrow> (x - c)\<^sup>2 \<le> sum_list (map (\<lambda>x. (x - c)\<^sup>2) xs)" for c :: real
proof (induction xs)
  case Nil
  then show ?case by simp
next
  case (Cons y ys)
  have nn: "0 \<le> sum_list (map (\<lambda>x. (x - c)\<^sup>2) ys)"
    by (rule sum_list_nonneg) auto
  show ?case
  proof (cases "x = y")
    case True
    then show ?thesis using nn by simp
  next
    case False
    then have "x \<in> set ys" using Cons.prems by simp
    then have "(x - c)\<^sup>2 \<le> sum_list (map (\<lambda>x. (x - c)\<^sup>2) ys)" by (rule Cons.IH)
    then show ?thesis by (simp add: add_increasing)
  qed
qed

lemma series_std_nonneg: "2 \<le> length xs \<Longrightarrow> 0 \<le> series_std xs"
  unfolding series_std_def
  by (intro real_sqrt_ge_zero divide_nonneg_nonneg sum_list_nonneg) auto

lemma series_std_pos:
  assumes "2 \<le> length xs" and "t \<in> set xs" and "t \<noteq> series_mean xs"
  shows "0 < series_std xs"
proof -
  have "0 < (t - series_mean xs)\<^sup>2" using assms(3) by simp
  also have "\<dots> \<le> sum_list (map (\<lambda>x. (x - series_mean xs)\<^sup>2) xs)"
    using assms(2) by (rule square_le_sum_squares)
  finally have "0 < sum_list (map (\<lambda>x. (x - series_mean xs)\<^sup>2) xs)" .
  moreover have "0 < real (length xs) - 1" using assms(1) by simp
  ultimately show ?thesis unfolding series_std_def by simp
qed

text \<open>
  C8. With fewer than three monthly totals the detection returns no anomaly. Otherwise,
  with \<open>mean\<close> and \<open>stdev\<close> the mean and the (sample) standard deviation of the
  monthly totals, a month is reported exactly when its total exceeds
  \<open>mean + 2 * stdev\<close>, and every reported month carries its total and the deviation
  \<open>(total - mean) / stdev\<close>, where \<open>stdev\<close> is positive.
\<close>

theorem rule_based_detection_threshold:
  fixes expenses_df :: "('m::linorder, 'c::linorder) expense_row list"
  defines "totals \<equiv> groupby_sum (map (\<lambda>r. (exp_month r, exp_amount r)) expenses_df)"
  defines "mean \<equiv> series_mean (map snd totals)"
  defines "stdev \<equiv> series_std (map snd totals)"
  shows "(length totals < 3 \<longrightarrow> rule_based_detection expenses_df = []) \<and>
         (3 \<le> length totals \<longrightarrow>
            (\<forall>(month, total) \<in> set totals.
               (\<exists>a \<in> set (rule_based_detection expenses_df). an_month a = month)
                 \<longleftrightarrow> total > mean + 2 * stdev) \<and>
            (\<forall>a \<in> set (rule_based_detection expenses_df).
               (an_month a, an_total_expense a) \<in> set totals \<and>
               an_total_expense a > mean + 2 * stdev \<and>
               0 < stdev \<and>
               an_deviation a = (an_total_expense a - mean) / stdev))"
proof (intro conjI impI)
  assume "length totals < 3"
  then show "rule_based_detection expenses_df = []"
    by (simp add: rule_based_detection_def totals_def Let_def)
next
  assume len: "3 \<le> length totals"
  define mk where "mk = (\<lambda>(month, total).
      \<lparr>an_month = month, an_total_expense = total, an_threshold = mean + 2 * stdev,
       an_deviation = (total - mean) / stdev,
       an_categories = groupby_sum (map (\<lambda>r. (exp_category r, exp_amount r))
                         (filter (\<lambda>r. exp_month r = month) expenses_df))\<rparr>)"
  have res: "rule_based_detection expenses_df =
      map mk (filter (\<lambda>(month, total). total > mean + 2 * stdev) totals)"
    using len
    by (simp add: rule_based_detection_def totals_def mean_def stdev_def mk_def Let_def)
  have dist: "distinct (map fst totals)"
    unfolding totals_def by (rule groupby_sum_distinct)
  show "\<forall>(month, total) \<in> set totals.
          (\<exists>a \<in> set (rule_based_detection expenses_df). an_month a = month)
            \<longleftrightarrow> total > mean + 2 * stdev"
  proof (clarify, rule iffI)
    fix month total
    assume mt: "(month, total) \<in> set totals"
    {
      assume "\<exists>a \<in> set (rule_based_detection expenses_df). an_month a = month"
      then obtain m' t' where in': "(m', t') \<in> set totals" and big: "t' > mean + 2 * stdev"
        and eq: "an_month (mk (m', t')) = month"
        unfolding res by auto
      from eq have "m' = month" by (simp add: mk_def)
      with in' mt dist have "t' = total" by (metis eq_key_imp_eq_value)
      with big show "total > mean + 2 * stdev" by simp
    }
    {
      assume "total > mean + 2 * stdev"
      with mt have "mk (month, total) \<in> set (rule_based_detection expenses_df)"
        unfolding res by auto
      moreover have "an_month (mk (month, total)) = month" by (simp add: mk_def)
      ultimately show "\<exists>a \<in> set (rule_based_detection expenses_df). an_month a = month"
        by blast
    }
  qed
  show "\<forall>a \<in> set (rule_based_detection expenses_df).
          (an_month a, an_total_expense a) \<in> set totals \<and>
          an_total_expense a > mean + 2 * stdev \<and> 0 < stdev \<and>
          an_deviation a = (an_total_expense a - mean) / stdev"
  proof
    fix a
    assume "a \<in> set (rule_based_detection expenses_df)"
    then obtain m t where mt: "(m, t) \<in> set totals" and big: "t > mean + 2 * stdev"
      and a: "a = mk (m, t)"
      unfolding res by auto
    have l2: "2 \<le> length (map snd totals)" using len by simp
    have nn: "0 \<le> stdev" unfolding stdev_def using l2 by (rule series_std_nonneg)
    have tin: "t \<in> set (map snd totals)" using mt by force
    have "t \<noteq> mean" using big nn by simp
    then have pos: "0 < stdev"
      unfolding stdev_def mean_def using l2 tin by (intro series_std_pos) simp_all
    show "(an_month a, an_total_expense a) \<in> set totals \<and>
          an_total_expense a > mean + 2 * stdev \<and> 0 < stdev \<and>
          an_deviation a = (an_total_expense a - mean) / stdev"
      using mt big pos by (simp add: a mk_def)
  qed
qed

lemma spike_totals:
  "groupby_sum (map (\<lambda>r. (exp_month r, exp_amount r)) spike_series) =
     [(1, 100), (2, 100), (3, 100), (4, 100), (5, 100), (6, 1000)]"
  by (simp add: spike_series_def monthly_rows_def groupby_sum_def)

lemma spike_mean: "series_mean [100, 100, 100, 100, 100, 1000] = 250"
  by (simp add: series_mean_def)

lemma spike_std: "series_std [100, 100, 100, 100, 100, 1000] = sqrt 135000"
  by (simp add: series_std_def spike_mean)

lemma spike_threshold: "250 + 2 * sqrt 135000 < 1000"
proof -
  have "(135000::real) < 375\<^sup>2" by simp
  then have "sqrt 135000 < 375" by (intro real_less_lsqrt) simp_all
  then show ?thesis by simp
qed

theorem rule_based_detection_threshold_witness:
  "\<exists>a \<in> set (rule_based_detection spike_series). an_month a = 6"
proof -
  have "(6, 1000) \<in> set (groupby_sum (map (\<lambda>r. (exp_month r, exp_amount r)) spike_series))"
    by (simp add: spike_totals)
  moreover have "3 \<le> length (groupby_sum (map (\<lambda>r. (exp_month r, exp_amount r)) spike_series))"
    by (simp add: spike_totals)
  moreover have "series_mean (map snd (groupby_sum (map (\<lambda>r. (exp_month r, exp_amount r)) spike_series)))
      + 2 * series_std (map snd (groupby_sum (map (\<lambda>r. (exp_month r, exp_amount r)) spike_series)))
      < 1000"
    using spike_threshold by (simp add: spike_totals spike_mean spike_std)
  ultimately show ?thesis
    using rule_based_detection_threshold [of spike_series] by fastforce
qed

lemma synthetic_totals:
  "groupby_sum (map (\<lambda>r. (exp_month r, exp_amount r)) synthetic_series) =
     [(1, 10000), (2, 10000), (3, 10000), (4, 10000), (5, 50000)]"
  by (simp add: synthetic_series_def monthly_rows_def groupby_sum_def)


lemma synthetic_mean: "series_mean [10000, 10000, 10000, 10000, 50000] = 18000"
  by (simp add: series_mean_def)

lemma synthetic_std: "series_std [10000, 10000, 10000, 10000, 50000] = sqrt 320000000"
  by (simp add: series_std_def synthetic_mean)

lemma synthetic_threshold: "50000 < 18000 + 2 * sqrt 320000000"
proof -
  have "(16000::real)\<^sup>2 < 320000000" by simp
  then have "16000 < sqrt 320000000" by (rule real_less_rsqrt)
  then show ?thesis by simp
qed

text \<open>
  C9, as stated: on the monthly totals 10000, 10000, 10000, 10000, 50000 the fifth
  month is flagged. It is not: no anomaly of the result has month 5.
\<close>

theorem synthetic_series_counterexample:
  "5 \<notin> an_month ` set (rule_based_detection synthetic_series)"
proof -
  have "rule_based_detection synthetic_series = []"
    using synthetic_threshold
    by (simp add: rule_based_detection_def synthetic_totals synthetic_mean synthetic_std Let_def)
  then show ?thesis by simp
qed

text \<open>
  C9, as the code has it: on that series the detection flags no month. The mean is
  18000 and the sample standard deviation \<open>sqrt 320000000\<close>, about 17888.5, so the
  threshold, about 53777, lies above 50000.
\<close>

theorem synthetic_series_not_flagged:
  "rule_based_detection synthetic_series = [] \<and>
   series_mean [10000, 10000, 10000, 10000, 50000] = 18000 \<and>
   series_std [10000, 10000, 10000, 10000, 50000] = sqrt 320000000 \<and>
   50000 < 18000 + 2 * sqrt 320000000"
  using synthetic_threshold
  by (simp add: rule_based_detection_def synthetic_totals synthetic_mean synthetic_std Let_def)

subsection \<open>The amortization schedule\<close>

text \<open>
  The running balance has a closed form, the rows of the schedule are read off it, and
  the rounded principal column differs from the exact one by at most half a hundredth
  per row.
\<close>

lemma running_balance_shift:
  "running_balance P m E (Suc k) = running_balance (P - (E - P * m)) m E k"
  by (induction k) simp_all

lemma running_balance_closed:
  "m \<noteq> 0 \<Longrightarrow> running_balance P m E k = P * (1 + m) ^ k - E * ((1 + m) ^ k - 1) / m"
proof (induction k)
  case 0
  then show ?case by simp
next
  case (Suc k)
  have "running_balance P m E (Suc k) = running_balance P m E k * (1 + m) - E"
    by (simp add: algebra_simps)
  also have "\<dots> = (P * (1 + m) ^ k - E * ((1 + m) ^ k - 1) / m) * (1 + m) - E"
    using Suc by simp
  also have "\<dots> = P * (1 + m) ^ Suc k - E * ((1 + m) ^ Suc k - 1) / m"
    using Suc.prems by (simp add: field_simps)
  finally show ?case .
qed

lemma running_balance_zero_rate: "running_balance P 0 E k = P - of_nat k * E"
  by (induction k) (simp_all add: algebra_simps)

lemma schedule_loop_length: "length (schedule_loop m E mo k b) = k"
  by (induction k arbitrary: mo b) (simp_all add: Let_def)

lemma schedule_loop_nth:
  "i < k \<Longrightarrow> schedule_loop m E mo k b ! i =
     \<lparr>row_month = mo + i, row_emi = E,
      row_interest = round2 (running_balance b m E i * m),
      row_principal = round2 (E - running_balance b m E i * m),
      row_balance = round2 (max (running_balance b m E (Suc i)) 0)\<rparr>"
proof (induction k arbitrary: mo b i)
  case 0
  then show ?case by simp
next
  case (Suc k)
  show ?case
  proof (cases i)
    case 0
    then show ?thesis by (simp add: Let_def)
  next
    case (Suc j)
    with Suc.prems have "j < k" by simp
    from Suc.IH[OF this, of "Suc mo" "b - (E - b * m)"] Suc
    show ?thesis
      by (simp add: Let_def running_balance_shift[symmetric] del: running_balance.simps(2))
  qed
qed

lemma principal_telescope:
  "(\<Sum>i<k. E - running_balance P m E i * m) = P - running_balance P m E k"
  by (induction k) simp_all

lemma schedule_principal_sum:
  "\<bar>sum_list (map row_principal (schedule_loop m E mo k b)) - (b - running_balance b m E k)\<bar>
     \<le> of_nat k / 200"
proof (induction k arbitrary: mo b)
  case 0
  then show ?case by simp
next
  case (Suc k)
  let ?p = "E - b * m"
  have a: "\<bar>round2 ?p - ?p\<bar> \<le> 1 / 200" by (rule round2_error)
  have b: "\<bar>sum_list (map row_principal (schedule_loop m E (Suc mo) k (b - ?p)))
            - ((b - ?p) - running_balance (b - ?p) m E k)\<bar> \<le> of_nat k / 200"
    by (rule Suc.IH)
  have "sum_list (map row_principal (schedule_loop m E mo (Suc k) b)) =
        round2 ?p + sum_list (map row_principal (schedule_loop m E (Suc mo) k (b - ?p)))"
    by (simp add: Let_def)
  moreover have "running_balance b m E (Suc k) = running_balance (b - ?p) m E k"
    by (rule running_balance_shift)
  ultimately show ?case using a b by (simp del: running_balance.simps(2) schedule_loop.simps add: abs_if split: if_splits) 
qed

lemma schedule_last_balance:
  "0 < k \<Longrightarrow> row_balance (last (schedule_loop m E mo k b)) =
     round2 (max (running_balance b m E k) 0)"
proof -
  assume k: "0 < k"
  then have ne: "schedule_loop m E mo k b \<noteq> []"
    using schedule_loop_length[of m E mo k b] by auto
  have "last (schedule_loop m E mo k b) = schedule_loop m E mo k b ! (k - 1)"
    using ne by (simp add: last_conv_nth schedule_loop_length)
  also have "\<dots> = \<lparr>row_month = mo + (k - 1), row_emi = E,
      row_interest = round2 (running_balance b m E (k - 1) * m),
      row_principal = round2 (E - running_balance b m E (k - 1) * m),
      row_balance = round2 (max (running_balance b m E (Suc (k - 1))) 0)\<rparr>"
    using k by (intro schedule_loop_nth) simp
  finally show ?thesis using k by (simp del: running_balance.simps(2))
qed

lemma round_half_even_unique:
  "of_int k - 1 / 2 < x \<Longrightarrow> x < of_int k + 1 / 2 \<Longrightarrow> round_half_even x = k"
proof -
  assume lo: "of_int k - 1 / 2 < x" and hi: "x < of_int k + 1 / 2"
  have "\<lfloor>x\<rfloor> = k \<or> \<lfloor>x\<rfloor> = k - 1"
  proof -
    have "x < of_int (k + 1)" using hi by simp
    then have "\<lfloor>x\<rfloor> < k + 1" by (subst floor_less_iff)
    moreover have "of_int (k - 1) \<le> x" using lo by simp
    then have "k - 1 \<le> \<lfloor>x\<rfloor>" by (subst le_floor_iff)
    ultimately show ?thesis by linarith
  qed
  then show ?thesis
  proof
    assume f: "\<lfloor>x\<rfloor> = k"
    then have "x - of_int k < 1 / 2" using hi by simp
    then show ?thesis unfolding round_half_even_def Let_def f by simp
  next
    assume f: "\<lfloor>x\<rfloor> = k - 1"
    then have "1 / 2 < x - of_int (k - 1)" using lo by simp
    then show ?thesis unfolding round_half_even_def Let_def f by simp
  qed
qed

lemma round2_unique:
  "of_int k / 100 - 1 / 200 < x \<Longrightarrow> x < of_int k / 100 + 1 / 200 \<Longrightarrow>
     round2 x = of_int k / 100"
  unfolding round2_def by (subst round_half_even_unique [of k]) simp_all

lemma growth_bounds:
  "10765163 / 1000000 < (51 / 50 :: real) ^ 120 \<and> (51 / 50 :: real) ^ 120 < 107651631 / 10000000"
  by (simp add: power_divide)

lemma calculate_emi_pos_rate:
  assumes "0 < r" and "0 < n"
  shows "calculate_emi P r n =
    Inr (round2 (P * (r / 1200) * (1 + r / 1200) ^ nat n / ((1 + r / 1200) ^ nat n - 1)))"
proof -
  have g: "fpow (1 + r / 1200) n = (1 + r / 1200) ^ nat n" using assms by (simp add: fpow_pos)
  have "1 < fpow (1 + r / 1200) n" using assms by (intro fpow_gt_one) simp_all
  then have "(1 + r / 1200) ^ nat n \<noteq> 1" using g by simp
  then show ?thesis using assms g by (simp add: calculate_emi_def py_div_def Let_def)
qed

lemma schedule_sum_bound:
  "\<bar>sum_list (map row_principal (calculate_loan_schedule P r n E))
      - (P - running_balance P (r / 1200) E (nat n))\<bar> \<le> of_nat (nat n) / 200"
  unfolding calculate_loan_schedule_def using schedule_principal_sum [of "r / 1200" E 1 "nat n" P]
  by simp

lemma schedule_last:
  "0 < n \<Longrightarrow> row_balance (last (calculate_loan_schedule P r n E)) =
     round2 (max (running_balance P (r / 1200) E (nat n)) 0)"
  unfolding calculate_loan_schedule_def
  using schedule_last_balance [of "nat n" "r / 1200" E 1 P] by simp

text \<open>
  C4, as stated, fails in its second half. A loan of 150000 at 24 percent over 120
  months has the EMI 3307.21, rounded down from about 3307.2145. With that EMI the
  exact principal parts \<open>E - interest\<close> add up to less than \<open>P - 1\<close>, so do the rounded
  ones of the rows, and the last row reports the balance 2.21.
\<close>

theorem loan_schedule_drift_counterexample:
  "calculate_emi 150000 24 120 = Inr (330721 / 100) \<and>
   1 < 150000 -
     (\<Sum>k < 120. 330721 / 100 - running_balance 150000 (24 / 1200) (330721 / 100) k * (24 / 1200)) \<and>
   1 < 150000 - sum_list (map row_principal (calculate_loan_schedule 150000 24 120 (330721 / 100))) \<and>
   row_balance (last (calculate_loan_schedule 150000 24 120 (330721 / 100))) = 221 / 100"
proof -
  define G :: real where "G = (51 / 50) ^ 120"
  have lo: "10765163 / 1000000 < G" and hi: "G < 107651631 / 10000000"
    unfolding G_def using growth_bounds by simp_all
  have base: "(1 + 24 / 1200 :: real) ^ nat 120 = G" unfolding G_def by simp
  have "calculate_emi 150000 24 120 =
      Inr (round2 (150000 * (24 / 1200) * (1 + 24 / 1200) ^ nat 120
                     / ((1 + 24 / 1200) ^ nat 120 - 1)))"
    by (rule calculate_emi_pos_rate) simp_all
  then have e1: "calculate_emi 150000 24 120 = Inr (round2 (3000 * G / (G - 1)))"
    unfolding base by simp
  have "round2 (3000 * G / (G - 1)) = of_int 330721 / 100"
  proof (rule round2_unique)
    show "of_int 330721 / 100 - 1 / 200 < 3000 * G / (G - 1)"
      using lo hi by (simp add: pos_less_divide_eq)
    show "3000 * G / (G - 1) < of_int 330721 / 100 + 1 / 200"
      using lo hi by (simp add: pos_divide_less_eq)
  qed
  then have emi: "calculate_emi 150000 24 120 = Inr (330721 / 100)" using e1 by simp
  have "running_balance 150000 (24 / 1200) (330721 / 100) (nat 120) =
      150000 * (1 + 24 / 1200) ^ nat 120
        - 330721 / 100 * ((1 + 24 / 1200) ^ nat 120 - 1) / (24 / 1200)"
    by (rule running_balance_closed) simp
  moreover have "150000 * G - 330721 / 100 * (G - 1) / (24 / 1200) =
      3307210 / 20 - 307210 / 20 * G"
    by (simp add: field_simps)
  ultimately have bal: "running_balance 150000 (24 / 1200) (330721 / 100) (nat 120) =
      3307210 / 20 - 307210 / 20 * G"
    unfolding base by (simp only:)
  have bal_lo: "2205 / 1000 < running_balance 150000 (24 / 1200) (330721 / 100) (nat 120)"
    and bal_hi: "running_balance 150000 (24 / 1200) (330721 / 100) (nat 120) < 2215 / 1000"
    unfolding bal using lo hi by simp_all
  have "\<bar>sum_list (map row_principal (calculate_loan_schedule 150000 24 120 (330721 / 100)))
      - (150000 - running_balance 150000 (24 / 1200) (330721 / 100) (nat 120))\<bar>
        \<le> of_nat (nat 120) / 200"
    by (rule schedule_sum_bound)
  then have drift:
    "1 < 150000 - sum_list (map row_principal (calculate_loan_schedule 150000 24 120 (330721 / 100)))"
    using bal_lo by (simp add: abs_if split: if_splits; linarith)
  have "row_balance (last (calculate_loan_schedule 150000 24 120 (330721 / 100))) =
      round2 (max (running_balance 150000 (24 / 1200) (330721 / 100) (nat 120)) 0)"
    by (rule schedule_last) simp
  also have "\<dots> = round2 (running_balance 150000 (24 / 1200) (330721 / 100) (nat 120))"
    using bal_lo by (simp add: max_def)
  also have "\<dots> = of_int 221 / 100"
    using bal_lo bal_hi by (intro round2_unique) simp_all
  finally have last: "row_balance (last (calculate_loan_schedule 150000 24 120 (330721 / 100))) = 221 / 100"
    by simp
  have "(\<Sum>k < nat 120. 330721 / 100 - running_balance 150000 (24 / 1200) (330721 / 100) k * (24 / 1200))
      = 150000 - running_balance 150000 (24 / 1200) (330721 / 100) (nat 120)"
    by (rule principal_telescope)
  then have exact: "1 < 150000 -
      (\<Sum>k < 120. 330721 / 100 - running_balance 150000 (24 / 1200) (330721 / 100) k * (24 / 1200))"
    using bal_lo by simp
  from emi exact drift last show ?thesis by blast
qed

lemma emi_drift_bound:
  assumes "0 < P" and "0 \<le> r" and "0 < n" and "calculate_emi P r n = Inr E"
  shows "\<bar>running_balance P (r / 1200) E (nat n)\<bar> \<le>
    (if r / 1200 = 0 then of_int n / 200
     else ((1 + r / 1200) ^ nat n - 1) / (200 * (r / 1200)))"
proof (cases "r = 0")
  case True
  have "calculate_emi P r n = Inr (round2 (P / of_int n))"
    using True assms by (simp add: calculate_emi_def py_div_def Let_def)
  then have E: "E = round2 (P / of_int n)" using assms(4) by simp
  have "running_balance P (r / 1200) E (nat n) = P - of_nat (nat n) * E"
    using True by (simp add: running_balance_zero_rate)
  also have "\<dots> = of_int n * (P / of_int n - E)" using assms(3) by (simp add: field_simps)
  finally have "\<bar>running_balance P (r / 1200) E (nat n)\<bar> =
      of_int n * \<bar>round2 (P / of_int n) - P / of_int n\<bar>"
    using assms(3) unfolding E by (simp add: abs_mult abs_minus_commute)
  also have "\<dots> \<le> of_int n * (1 / 200)"
    using assms(3) by (intro mult_left_mono round2_error) simp
  finally show ?thesis using True by simp
next
  case False
  define m where "m = r / 1200"
  define g where "g = (1 + m) ^ nat n"
  define X where "X = P * m * g / (g - 1)"
  have mpos: "0 < m" using False assms by (simp add: m_def)
  have "1 < fpow (1 + m) n" using mpos assms by (intro fpow_gt_one) simp_all
  then have g1: "1 < g" using assms by (simp add: g_def fpow_pos)
  have "calculate_emi P r n = Inr (round2 X)"
    unfolding X_def g_def m_def using False assms by (intro calculate_emi_pos_rate) simp_all
  then have E: "E = round2 X" using assms(4) by simp
  have "running_balance P m E (nat n) = P * g - E * (g - 1) / m"
    unfolding g_def using mpos by (intro running_balance_closed) simp
  also have "P * g = X * (g - 1) / m" using mpos g1 by (simp add: X_def)
  finally have "running_balance P m E (nat n) = (X - E) * ((g - 1) / m)"
    by (simp add: algebra_simps diff_divide_distrib)
  then have "\<bar>running_balance P m E (nat n)\<bar> = \<bar>round2 X - X\<bar> * ((g - 1) / m)"
    using mpos g1 unfolding E by (simp add: abs_mult abs_minus_commute)
  also have "\<dots> \<le> 1 / 200 * ((g - 1) / m)"
    using mpos g1 by (intro mult_right_mono round2_error) simp
  finally have "\<bar>running_balance P m E (nat n)\<bar> \<le> 1 / 200 * ((g - 1) / m)" .
  moreover have "1 / 200 * ((g - 1) / m) = (g - 1) / (200 * m)" by simp
  ultimately have b: "\<bar>running_balance P m E (nat n)\<bar> \<le> (g - 1) / (200 * m)"
    by (simp only:)
  have ne: "r / 1200 \<noteq> 0" using False by simp
  show ?thesis using b unfolding m_def g_def by (simp only: ne if_False)
qed

text \<open>
  C4, as the code has it. For a tenure \<open>n > 0\<close> and any principal, rate and EMI the
  schedule has \<open>n\<close> rows; row \<open>k\<close> (from 0) carries the month \<open>k + 1\<close>, the EMI, and the
  2-decimal roundings of the interest \<open>balance * (r / 1200)\<close>, of the principal part
  \<open>E - interest\<close> and of the new balance clamped at 0, where the balance runs unclamped
  from \<open>P\<close>. The exact principal parts add up to \<open>P\<close> minus the final running balance.
  When \<open>P > 0\<close>, \<open>r \<ge> 0\<close> and \<open>E\<close> is the EMI of the loan, that final balance is at most
  \<open>0.005 * ((1 + m) ^ n - 1) / m\<close> in absolute value for the monthly rate \<open>m > 0\<close>, and
  at most \<open>0.005 * n\<close> at rate 0: the drift grows with the tenure and the rate and is
  not bounded by 1.
\<close>

theorem loan_schedule_rows:
  fixes P r E :: real and n :: int
  defines "m \<equiv> r / 1200"
  defines "rows \<equiv> calculate_loan_schedule P r n E"
  defines "bal \<equiv> running_balance P m E"
  assumes "0 < n"
  shows "length rows = nat n \<and>
    (\<forall>k < nat n. rows ! k =
       \<lparr>row_month = Suc k, row_emi = E, row_interest = round2 (bal k * m),
        row_principal = round2 (E - bal k * m),
        row_balance = round2 (max (bal (Suc k)) 0)\<rparr>) \<and>
    row_balance (last rows) = round2 (max (bal (nat n)) 0) \<and>
    (\<Sum>k < nat n. E - bal k * m) = P - bal (nat n) \<and>
    (0 < P \<longrightarrow> 0 \<le> r \<longrightarrow> calculate_emi P r n = Inr E \<longrightarrow>
       \<bar>bal (nat n)\<bar> \<le> (if m = 0 then of_int n / 200
                              else ((1 + m) ^ nat n - 1) / (200 * m)))"
proof (intro conjI allI impI)
  show "length rows = nat n"
    by (simp add: rows_def calculate_loan_schedule_def schedule_loop_length)
  show "rows ! k =
       \<lparr>row_month = Suc k, row_emi = E, row_interest = round2 (bal k * m),
        row_principal = round2 (E - bal k * m),
        row_balance = round2 (max (bal (Suc k)) 0)\<rparr>" if "k < nat n" for k
    unfolding rows_def calculate_loan_schedule_def bal_def m_def
    using that by (simp add: schedule_loop_nth del: running_balance.simps)
  show "row_balance (last rows) = round2 (max (bal (nat n)) 0)"
    unfolding rows_def bal_def m_def using assms(4) by (rule schedule_last)
  show "(\<Sum>k < nat n. E - bal k * m) = P - bal (nat n)"
    unfolding bal_def by (rule principal_telescope)
  show "\<bar>bal (nat n)\<bar> \<le> (if m = 0 then of_int n / 200
                              else ((1 + m) ^ nat n - 1) / (200 * m))"
    if "0 < P" "0 \<le> r" "calculate_emi P r n = Inr E"
    unfolding bal_def m_def using that(1,2) assms(4) that(3) by (rule emi_drift_bound)
qed

theorem loan_schedule_rows_witness:
  "length (calculate_loan_schedule 1200 12 2 (60901 / 100)) = 2 \<and>
   calculate_loan_schedule 1200 12 2 (60901 / 100) ! 0 =
     \<lparr>row_month = 1, row_emi = 60901 / 100, row_interest = 12,
      row_principal = 59701 / 100, row_balance = 60299 / 100\<rparr> \<and>
   \<bar>running_balance 1200 (12 / 1200) (60901 / 100) 2\<bar> \<le> 201 / 20000"
proof -
  have e: "calculate_emi 1200 12 2 = Inr (60901 / 100)"
    by (simp add: calculate_emi_def py_div_def fpow_def round2_def round_half_even_def Let_def
        power2_eq_square)
  have n: "nat 2 = 2" by simp
  have pos: "0 < (2 :: int)" by simp
  note rows = loan_schedule_rows [of 2 1200 12 "60901 / 100", OF pos]
  from rows have len: "length (calculate_loan_schedule 1200 12 2 (60901 / 100)) = 2"
    using n by simp
  from rows have "0 < nat 2 \<longrightarrow> calculate_loan_schedule 1200 12 2 (60901 / 100) ! 0 =
     \<lparr>row_month = Suc 0, row_emi = 60901 / 100,
      row_interest = round2 (running_balance 1200 (12 / 1200) (60901 / 100) 0 * (12 / 1200)),
      row_principal =
        round2 (60901 / 100 - running_balance 1200 (12 / 1200) (60901 / 100) 0 * (12 / 1200)),
      row_balance = round2 (max (running_balance 1200 (12 / 1200) (60901 / 100) (Suc 0)) 0)\<rparr>"
    by blast
  then have row: "calculate_loan_schedule 1200 12 2 (60901 / 100) ! 0 =
     \<lparr>row_month = 1, row_emi = 60901 / 100, row_interest = 12,
      row_principal = 59701 / 100, row_balance = 60299 / 100\<rparr>"
    by (simp add: round2_def round_half_even_def Let_def)
  from rows e have "\<bar>running_balance 1200 (12 / 1200) (60901 / 100) (nat 2)\<bar> \<le>
      ((1 + 12 / 1200) ^ nat 2 - 1) / (200 * (12 / 1200))"
    by simp
  then have drift: "\<bar>running_balance 1200 (12 / 1200) (60901 / 100) 2\<bar> \<le> 201 / 20000"
    unfolding n by (simp add: power2_eq_square)
  from len row drift show ?thesis by blast
qed

subsection \<open>The XIRR on empty lists\<close>

text \<open>
  C10. Called with two empty lists, which pass the length check, \<open>calculate_xirr\<close>
  returns no number: reading \<open>dates[0]\<close> raises \<open>IndexError\<close>.
\<close>

theorem xirr_empty_lists_index_error: "calculate_xirr [] [] = Inl IndexError"
  by (simp add: calculate_xirr_def)

end
